theory Spec2Isabelle
  imports Main
begin

section \<open>Python values used by the interviewer\<close>

text \<open>
  A Python \<open>str\<close> is a \<open>string\<close>; each \<open>char\<close> stands for one code point below 256.
  \<open>str.strip()\<close> removes the characters for which \<open>str.isspace\<close> holds from both
  ends; below 256 these are the code points 9 to 13, 28 to 32, 133 and 160.
\<close>

definition is_space :: "char \<Rightarrow> bool" where
  "is_space c =
     (let n = (of_char c :: nat)
      in (9 \<le> n \<and> n \<le> 13) \<or> (28 \<le> n \<and> n \<le> 32) \<or> n = 133 \<or> n = 160)"

definition strip :: "string \<Rightarrow> string" where
  "strip s = rev (dropWhile is_space (rev (dropWhile is_space s)))"

text \<open>\<open>sub in s\<close> on strings: \<open>sub\<close> occurs in \<open>s\<close> as a contiguous run.\<close>

fun starts_with :: "string \<Rightarrow> string \<Rightarrow> bool" where
  "starts_with s [] = True"
| "starts_with [] (c # cs) = False"
| "starts_with (d # ds) (c # cs) = (d = c \<and> starts_with ds cs)"

fun str_in :: "string \<Rightarrow> string \<Rightarrow> bool" where
  "str_in sub [] = (sub = [])"
| "str_in sub (c # cs) = (starts_with (c # cs) sub \<or> str_in sub cs)"

text \<open>\<open>sep.join(parts)\<close>.\<close>

fun join :: "string \<Rightarrow> string list \<Rightarrow> string" where
  "join sep [] = []"
| "join sep [x] = x"
| "join sep (x # y # ys) = x @ sep @ join sep (y # ys)"

text \<open>
  The truth value of an attribute that holds \<open>None\<close> or a \<open>str\<close>: \<open>None\<close> and the
  empty string are false. \<open>format_field\<close> is what an f-string renders for it.
\<close>

fun truthy :: "string option \<Rightarrow> bool" where
  "truthy None = False"
| "truthy (Some s) = (s \<noteq> [])"

fun format_field :: "string option \<Rightarrow> string" where
  "format_field None = ''None''"
| "format_field (Some s) = s"

text \<open>
  The resume information is an arbitrary object handed in by the platform. The code
  observes only its truth value and its \<open>str()\<close>, so an object is modelled by these two.
\<close>

record pyobj =
  obj_truthy :: bool
  obj_str :: string

section \<open>The conversation memory\<close>

text \<open>
  \<open>ConversationBufferMemory\<close> keeps a list of messages. \<open>save_context\<close> appends the input
  as a human message and the output as an AI message; \<open>load_memory_variables\<close> with
  \<open>return_messages=True\<close> returns the list as it is.
\<close>

datatype message = HumanMessage string | AIMessage string

fun msg_type :: "message \<Rightarrow> string" where
  "msg_type (HumanMessage c) = ''human''"
| "msg_type (AIMessage c) = ''ai''"

fun msg_content :: "message \<Rightarrow> string" where
  "msg_content (HumanMessage c) = c"
| "msg_content (AIMessage c) = c"

definition save_context :: "message list \<Rightarrow> string \<Rightarrow> string \<Rightarrow> message list" where
  "save_context msgs inp outp = msgs @ [HumanMessage inp, AIMessage outp]"

definition load_memory_variables :: "message list \<Rightarrow> message list" where
  "load_memory_variables msgs = msgs"

definition chat_history_str :: "message list \<Rightarrow> string" where
  "chat_history_str chat_history =
     (if chat_history \<noteq> []
      then join [CHR 0x0A] (map (\<lambda>msg. msg_type msg @ '': '' @ msg_content msg) chat_history)
      else [])"

section \<open>Session state\<close>

text \<open>
  \<open>interview_stage\<close> holds one of six string constants; they are the constructors of
  \<open>stage\<close>, and \<open>stage_str\<close> gives the string.
\<close>

datatype stage =
  Introduction | General_questions | Technical_questions
  | Experience_questions | Behavioral_questions | Closing

fun stage_str :: "stage \<Rightarrow> string" where
  "stage_str Introduction = ''introduction''"
| "stage_str General_questions = ''general_questions''"
| "stage_str Technical_questions = ''technical_questions''"
| "stage_str Experience_questions = ''experience_questions''"
| "stage_str Behavioral_questions = ''behavioral_questions''"
| "stage_str Closing = ''closing''"

record interviewer =
  candidate_name :: "string option"
  job_position :: "string option"
  interview_stage :: stage
  last_question :: string
  memory :: "message list"
  resume_entities :: "pyobj option"

text \<open>
  \<open>initialize_session\<close> assigns the six attributes. \<open>AIInterviewer\<close> is the object the
  constructor returns: it calls \<open>initialize_session\<close> and then builds the model client,
  the template and the chain, which never change and are not part of the state.
\<close>

definition initialize_session :: "interviewer \<Rightarrow> interviewer" where
  "initialize_session s =
     s\<lparr>candidate_name := None, job_position := None, interview_stage := Introduction,
       last_question := [], memory := [], resume_entities := None\<rparr>"

definition AIInterviewer :: interviewer where
  "AIInterviewer =
     \<lparr>candidate_name = None, job_position = None, interview_stage = Introduction,
      last_question = [], memory = [], resume_entities = None\<rparr>"

definition set_resume_entities :: "pyobj \<Rightarrow> interviewer \<Rightarrow> interviewer" where
  "set_resume_entities r s = s\<lparr>resume_entities := Some r\<rparr>"

section \<open>The external generation service\<close>

text \<open>
  A request is the keyword arguments of one \<open>run\<close> call: on \<open>question_chain\<close>, or on the
  chain built for the advance decision. The service is a function from the number of
  earlier calls and the request to the text it returns or the exception it raises, so
  that two calls with the same request may answer differently. An exception is given by
  the name of its class and its message; the interviewer defines no exception class of
  its own and has no \<open>try\<close> statement. The world is the session together with the list
  of requests sent so far.
\<close>

datatype request =
  Question_request (job_position_arg: string) (stage_arg: string) (name_arg: string)
    (chat_history_arg: string) (resume_info_arg: string)
  | Should_advance_request string string

datatype error = PyError (exc_class: string) (exc_message: string)

type_synonym llm = "nat \<Rightarrow> request \<Rightarrow> error + string"

type_synonym world = "interviewer \<times> request list"

definition chain_run :: "llm \<Rightarrow> request \<Rightarrow> request list \<Rightarrow> (error + string) \<times> request list" where
  "chain_run llm req sent = (llm (length sent) req, sent @ [req])"

section \<open>The dialogue controller\<close>

definition name_prompt :: string where
  "name_prompt = ''Hello! I'm your AI interviewer today. Could you please tell me your name?''"

definition role_prompt :: "string option \<Rightarrow> string" where
  "role_prompt name =
     ''Nice to meet you, '' @ format_field name @ ''! What position are you applying for?''"

definition welcome_prompt :: "string option \<Rightarrow> string option \<Rightarrow> string" where
  "welcome_prompt name job =
     ''Thank you, '' @ format_field name @ ''. Let's begin the interview for the ''
     @ format_field job
     @ '' position. Could you tell me a bit about yourself and your professional background?''"

text \<open>
  The keyword arguments \<open>get_next_question\<close> passes to \<open>question_chain.run\<close>. The
  method computes them before it looks at the stage; they read the state only.
\<close>

definition question_request :: "interviewer \<Rightarrow> request" where
  "question_request s =
     (let name = (if truthy (candidate_name s) then format_field (candidate_name s)
                  else ''Unknown'');
          job = (if truthy (job_position s) then format_field (job_position s)
                 else ''the position'');
          resume_info =
            (case resume_entities s of
               None \<Rightarrow> ''No resume information available.''
             | Some r \<Rightarrow> if obj_truthy r then obj_str r
                         else ''No resume information available.'');
          chat_history = load_memory_variables (memory s);
          history = chat_history_str chat_history
      in Question_request job (stage_str (interview_stage s)) name history resume_info)"

fun get_next_question :: "llm \<Rightarrow> world \<Rightarrow> (error + string) \<times> world" where
  "get_next_question llm (s, sent) =
     (if interview_stage s = Introduction then
        (if \<not> truthy (candidate_name s) then
           (Inr name_prompt, s\<lparr>last_question := name_prompt\<rparr>, sent)
         else if \<not> truthy (job_position s) then
           (Inr (role_prompt (candidate_name s)),
            s\<lparr>last_question := role_prompt (candidate_name s)\<rparr>, sent)
         else
           (Inr (welcome_prompt (candidate_name s) (job_position s)),
            s\<lparr>interview_stage := General_questions,
              last_question := welcome_prompt (candidate_name s) (job_position s)\<rparr>,
            sent))
      else
        (case chain_run llm (question_request s) sent of
           (Inl e, sent') \<Rightarrow> (Inl e, s, sent')
         | (Inr response, sent') \<Rightarrow> (Inr response, s\<lparr>last_question := response\<rparr>, sent')))"

definition stages :: "stage list" where
  "stages = [Introduction, General_questions, Technical_questions,
             Experience_questions, Behavioral_questions, Closing]"

text \<open>\<open>index_of xs x\<close> is \<open>xs.index(x)\<close> for an \<open>x\<close> that occurs in \<open>xs\<close>, as every stage does.\<close>

fun index_of :: "'a list \<Rightarrow> 'a \<Rightarrow> nat" where
  "index_of [] x = 0"
| "index_of (y # ys) x = (if y = x then 0 else Suc (index_of ys x))"

definition advance_stage :: "interviewer \<Rightarrow> interviewer" where
  "advance_stage s =
     (let current_index = index_of stages (interview_stage s)
      in if current_index < length stages - 1
         then s\<lparr>interview_stage := stages ! (current_index + 1)\<rparr>
         else s)"

text \<open>The first statement of \<open>process_response\<close>: the exchange goes into the memory.\<close>

definition record_exchange :: "string \<Rightarrow> interviewer \<Rightarrow> interviewer" where
  "record_exchange response s =
     s\<lparr>memory := save_context (memory s) (last_question s) response\<rparr>"

fun process_response :: "llm \<Rightarrow> string \<Rightarrow> world \<Rightarrow> (error + string) \<times> world" where
  "process_response llm response (s0, sent) =
     (let s = record_exchange response s0
      in
        if interview_stage s = Introduction \<and> \<not> truthy (candidate_name s) then
          get_next_question llm (s\<lparr>candidate_name := Some (strip response)\<rparr>, sent)
        else if interview_stage s = Introduction \<and> \<not> truthy (job_position s) then
          get_next_question llm (s\<lparr>job_position := Some (strip response)\<rparr>, sent)
        else if interview_stage s \<noteq> Closing then
          (let chat_history = load_memory_variables (memory s);
               history = chat_history_str chat_history
           in case chain_run llm
                     (Should_advance_request history (stage_str (interview_stage s))) sent of
                (Inl e, sent') \<Rightarrow> (Inl e, s, sent')
              | (Inr advance_decision, sent') \<Rightarrow>
                  if str_in ''YES'' advance_decision
                  then get_next_question llm (advance_stage s, sent')
                  else get_next_question llm (s, sent'))
        else get_next_question llm (s, sent))"

section \<open>Sequences of operations\<close>

text \<open>
  The public operations of a session. A caller may go on after an exception, so a run
  continues from the state the failed call left behind.
\<close>

datatype op =
  Next_question | Process_response string | Advance_stage
  | Set_resume_entities pyobj | Initialize_session

fun step :: "llm \<Rightarrow> op \<Rightarrow> world \<Rightarrow> (error + string) option \<times> world" where
  "step llm Next_question w = (let (r, w') = get_next_question llm w in (Some r, w'))"
| "step llm (Process_response a) w = (let (r, w') = process_response llm a w in (Some r, w'))"
| "step llm Advance_stage (s, sent) = (None, advance_stage s, sent)"
| "step llm (Set_resume_entities r) (s, sent) = (None, set_resume_entities r s, sent)"
| "step llm Initialize_session (s, sent) = (None, initialize_session s, sent)"

fun run :: "llm \<Rightarrow> op list \<Rightarrow> world \<Rightarrow> world" where
  "run llm [] w = w"
| "run llm (x # xs) w = run llm xs (snd (step llm x w))"

text \<open>The position of a stage in the fixed order.\<close>

definition stage_index :: "stage \<Rightarrow> nat" where
  "stage_index st = index_of stages st"

section \<open>Concrete sessions and stubbed services\<close>

text \<open>
  A new session moved to a given stage, and three stubs of the generation service: one
  that always answers with an affirmative decision text, one that always answers with a
  negative one, and one that always raises a \<open>RuntimeError\<close>.
\<close>

definition session_at :: "stage \<Rightarrow> interviewer" where
  "session_at st = AIInterviewer\<lparr>interview_stage := st\<rparr>"

definition stub_yes :: llm where
  "stub_yes n req = Inr ''YES please advance''"

definition stub_no :: llm where
  "stub_no n req = Inr ''NO, not yet''"

definition stub_down :: llm where
  "stub_down n req = Inl (PyError ''RuntimeError'' ''service unavailable'')"

text \<open>
  Sessions and operation sequences used as concrete inputs: a session still in the
  introduction whose job position was answered with blanks, one with both fields filled
  in, and three short interviews.
\<close>

definition blank_role_session :: interviewer where
  "blank_role_session =
     \<lparr>candidate_name = Some ''Alice'', job_position = Some [],
      interview_stage = Introduction,
      last_question = ''Nice to meet you, Alice! What position are you applying for?'',
      memory =
        [HumanMessage ''Hello! I'm your AI interviewer today. Could you please tell me your name?'',
         AIMessage ''Alice'',
         HumanMessage ''Nice to meet you, Alice! What position are you applying for?'',
         AIMessage ''   ''],
      resume_entities = None\<rparr>"

definition alice_engineer :: interviewer where
  "alice_engineer =
     AIInterviewer\<lparr>candidate_name := Some ''Alice'', job_position := Some ''Engineer''\<rparr>"

definition demo_ops :: "op list" where
  "demo_ops = [Next_question, Process_response ''Alice'', Process_response ''Engineer'',
               Process_response ''I write code.'']"

definition later_ops :: "op list" where
  "later_ops = [Next_question, Process_response ''I write code.'', Advance_stage]"

definition empty_role_ops :: "op list" where
  "empty_role_ops = [Next_question, Process_response ''Bob'', Process_response []]"

section \<open>Observations on a run\<close>

text \<open>
  The request \<open>process_response\<close> sends for the advance decision, after it has recorded
  the answer \<open>a\<close>.
\<close>

definition decision_request :: "string \<Rightarrow> interviewer \<Rightarrow> request" where
  "decision_request a s =
     Should_advance_request (chat_history_str (memory (record_exchange a s)))
       (stage_str (interview_stage s))"

text \<open>
  \<open>exchanges\<close> lists, for each \<open>process_response\<close> call of a run in call order, the
  question that was pending when the call was made and the answer passed in.
  \<open>transcript_messages\<close> is the message list these pairs make in the memory.
\<close>

fun is_process_response :: "op \<Rightarrow> bool" where
  "is_process_response (Process_response a) = True"
| "is_process_response x = False"

fun exchanges :: "llm \<Rightarrow> op list \<Rightarrow> world \<Rightarrow> (string \<times> string) list" where
  "exchanges llm [] w = []"
| "exchanges llm (Process_response a # xs) w =
     (last_question (fst w), a) # exchanges llm xs (snd (step llm (Process_response a) w))"
| "exchanges llm (x # xs) w = exchanges llm xs (snd (step llm x w))"

fun transcript_messages :: "(string \<times> string) list \<Rightarrow> message list" where
  "transcript_messages [] = []"
| "transcript_messages ((q, a) # qas) = HumanMessage q # AIMessage a # transcript_messages qas"

text \<open>
  \<open>output_at\<close> is what the \<open>i\<close>-th operation of a run returns. An output is
  \<open>from_service\<close> when the call sent at least one request and returned what the service
  answered to the last one, its text or its exception.
\<close>

definition output_at :: "llm \<Rightarrow> op list \<Rightarrow> world \<Rightarrow> nat \<Rightarrow> (error + string) option" where
  "output_at llm ops w i = fst (step llm (ops ! i) (run llm (take i ops) w))"

definition from_service :: "llm \<Rightarrow> request list \<Rightarrow> request list \<Rightarrow> (error + string) option \<Rightarrow> bool" where
  "from_service llm sent sent' r =
     (length sent < length sent' \<and> r = Some (llm (length sent' - 1) (last sent')))"

text \<open>
  The specification calls the error of a failed generation call generation-unavailable,
  a kind of its own. \<open>spec_generation_unavailable\<close> follows these words: it holds of an
  exception of a class with that name.
\<close>

definition spec_generation_unavailable :: "error \<Rightarrow> bool" where
  "spec_generation_unavailable e = (exc_class e = ''GenerationUnavailable'')"

text \<open>
  An answer made of a tab, a space, a line feed and a no-break space, and a session that
  has a name and waits for the position.
\<close>

definition blank_answer :: string where
  "blank_answer = [CHR 0x09, CHR '' '', CHR 0x0A, CHR 0xA0]"

definition bob_session :: interviewer where
  "bob_session = AIInterviewer\<lparr>candidate_name := Some ''Bob''\<rparr>"

section \<open>Substring test and stage order\<close>

lemma str_in_iff_aux: "starts_with s sub \<longleftrightarrow> (\<exists>q. s = sub @ q)"
  by (induction s sub rule: starts_with.induct) auto

lemma str_in_iff: "str_in sub s \<longleftrightarrow> (\<exists>p q. s = p @ sub @ q)"
proof (induction s)
  case Nil
  then show ?case by auto
next
  case (Cons c cs)
  show ?case
  proof
    assume "str_in sub (c # cs)"
    then consider "starts_with (c # cs) sub" | "str_in sub cs" by auto
    then show "\<exists>p q. c # cs = p @ sub @ q"
    proof cases
      case 1
      then obtain q where "c # cs = sub @ q" using str_in_iff_aux by blast
      then have "c # cs = [] @ sub @ q" by simp
      then show ?thesis by blast
    next
      case 2
      then obtain p q where "cs = p @ sub @ q" using Cons.IH by blast
      then have "c # cs = (c # p) @ sub @ q" by simp
      then show ?thesis by blast
    qed
  next
    assume "\<exists>p q. c # cs = p @ sub @ q"
    then obtain p q where pq: "c # cs = p @ sub @ q" by blast
    show "str_in sub (c # cs)"
    proof (cases p)
      case Nil
      then have "starts_with (c # cs) sub" using pq str_in_iff_aux by auto
      then show ?thesis by simp
    next
      case (Cons a p')
      then have "cs = p' @ sub @ q" using pq by simp
      then have "str_in sub cs" using Cons.IH by blast
      then show ?thesis by simp
    qed
  qed
qed

lemma advance_stage_stage:
  "interview_stage (advance_stage s) =
     (case interview_stage s of
        Introduction \<Rightarrow> General_questions
      | General_questions \<Rightarrow> Technical_questions
      | Technical_questions \<Rightarrow> Experience_questions
      | Experience_questions \<Rightarrow> Behavioral_questions
      | Behavioral_questions \<Rightarrow> Closing
      | Closing \<Rightarrow> Closing)"
  by (cases "interview_stage s") (simp_all add: advance_stage_def stages_def)

lemma stage_index_simps:
  "stage_index Introduction = 0" "stage_index General_questions = 1"
  "stage_index Technical_questions = 2" "stage_index Experience_questions = 3"
  "stage_index Behavioral_questions = 4" "stage_index Closing = 5"
  by (simp_all add: stage_index_def stages_def)

lemma advance_stage_closing: "interview_stage s = Closing \<Longrightarrow> advance_stage s = s"
  by (simp add: advance_stage_def stages_def)

lemma advance_stage_other_fields:
  "candidate_name (advance_stage s) = candidate_name s"
  "job_position (advance_stage s) = job_position s"
  "last_question (advance_stage s) = last_question s"
  "memory (advance_stage s) = memory s"
  "resume_entities (advance_stage s) = resume_entities s"
  by (simp_all add: advance_stage_def Let_def)

section \<open>What one call of \<open>get_next_question\<close> does\<close>

lemma gnq_later:
  "interview_stage s \<noteq> Introduction \<Longrightarrow>
   get_next_question llm (s, sent) =
     (case llm (length sent) (question_request s) of
        Inl e \<Rightarrow> (Inl e, s, sent @ [question_request s])
      | Inr q \<Rightarrow> (Inr q, s\<lparr>last_question := q\<rparr>, sent @ [question_request s]))"
  by (simp add: chain_run_def split: sum.splits)

lemma gnq_stage_later:
  "interview_stage s \<noteq> Introduction \<Longrightarrow>
   interview_stage (fst (snd (get_next_question llm (s, sent)))) = interview_stage s"
  by (simp add: gnq_later split: sum.splits del: get_next_question.simps)

section \<open>The advance decision\<close>

text \<open>
  Claim C1. \<open>process_response\<close> is called at a stage that is neither the introduction nor
  the closing, and the advance-decision call returns the text \<open>decision\<close>. Then the
  stage after the call is one position further in the fixed order exactly when
  \<open>decision\<close> contains \<open>YES\<close> as a contiguous, case-sensitive run of characters, and for
  every other text the stage is the one before the call.
\<close>

theorem process_response_advances_iff_yes:
  assumes "interview_stage s \<noteq> Introduction" and "interview_stage s \<noteq> Closing"
    and "llm (length sent)
           (Should_advance_request (chat_history_str (memory (record_exchange response s)))
              (stage_str (interview_stage s))) = Inr decision"
  shows "(stage_index (interview_stage (fst (snd (process_response llm response (s, sent)))))
            = stage_index (interview_stage s) + 1
          \<longleftrightarrow> (\<exists>p q. decision = p @ ''YES'' @ q))
       \<and> (\<not> (\<exists>p q. decision = p @ ''YES'' @ q) \<longrightarrow>
            interview_stage (fst (snd (process_response llm response (s, sent))))
              = interview_stage s)"
proof -
  let ?s = "record_exchange response s"
  have st: "interview_stage ?s = interview_stage s" by (simp add: record_exchange_def)
  have mem: "load_memory_variables (memory ?s) = memory ?s"
    by (simp add: load_memory_variables_def)
  show ?thesis
  proof (cases "str_in ''YES'' decision")
    case True
    have adv: "interview_stage (advance_stage ?s) \<noteq> Introduction"
      using assms(1) st by (cases "interview_stage s") (simp_all add: advance_stage_stage)
    have "process_response llm response (s, sent) =
            get_next_question llm (advance_stage ?s,
              sent @ [Should_advance_request (chat_history_str (memory ?s))
                        (stage_str (interview_stage s))])"
      using assms True st by (simp add: Let_def chain_run_def mem del: get_next_question.simps)
    then have "interview_stage (fst (snd (process_response llm response (s, sent))))
                 = interview_stage (advance_stage ?s)"
      using adv by (simp add: gnq_stage_later del: get_next_question.simps)
    moreover have "stage_index (interview_stage (advance_stage ?s))
                     = stage_index (interview_stage s) + 1"
      using assms(2) st
      by (cases "interview_stage s") (simp_all add: advance_stage_stage stage_index_simps)
    ultimately show ?thesis using True by (simp add: str_in_iff)
  next
    case False
    have "process_response llm response (s, sent) =
            get_next_question llm (?s,
              sent @ [Should_advance_request (chat_history_str (memory ?s))
                        (stage_str (interview_stage s))])"
      using assms False st by (simp add: Let_def chain_run_def mem del: get_next_question.simps)
    then have "interview_stage (fst (snd (process_response llm response (s, sent))))
                 = interview_stage s"
      using assms(1) st by (simp add: gnq_stage_later del: get_next_question.simps)
    then show ?thesis using False by (simp add: str_in_iff)
  qed
qed

theorem process_response_advances_iff_yes_witness:
  "interview_stage (fst (snd (process_response stub_yes ''Fine.''
      (session_at Technical_questions, [])))) = Experience_questions
   \<and> stage_index (interview_stage (fst (snd (process_response stub_yes ''Fine.''
      (session_at Technical_questions, []))))) = stage_index Technical_questions + 1
   \<and> (\<exists>p q. ''YES please advance'' = p @ ''YES'' @ q)
   \<and> interview_stage (fst (snd (process_response stub_no ''Fine.''
      (session_at Technical_questions, [])))) = Technical_questions
   \<and> \<not> (\<exists>p q. ''NO, not yet'' = p @ ''YES'' @ q)"
proof -
  have h1: "interview_stage (session_at Technical_questions) \<noteq> Introduction"
    by (simp add: session_at_def)
  have h2: "interview_stage (session_at Technical_questions) \<noteq> Closing"
    by (simp add: session_at_def)
  have h3: "stub_yes (length ([] :: request list))
           (Should_advance_request
              (chat_history_str (memory (record_exchange ''Fine.'' (session_at Technical_questions))))
              (stage_str (interview_stage (session_at Technical_questions))))
         = Inr ''YES please advance''"
    by (simp add: stub_yes_def)
  have yes: "\<exists>p q. ''YES please advance'' = p @ ''YES'' @ q"
    by (rule exI [of _ "[]"], rule exI [of _ "'' please advance''"]) simp
  have e: "interview_stage (fst (snd (process_response stub_yes ''Fine.''
      (session_at Technical_questions, [])))) = Experience_questions"
    by (simp add: session_at_def AIInterviewer_def record_exchange_def save_context_def
        load_memory_variables_def chain_run_def stub_yes_def advance_stage_def stages_def
        Let_def)
  from process_response_advances_iff_yes
         [where s = "session_at Technical_questions" and llm = stub_yes and sent = "[]"
            and response = "''Fine.''" and decision = "''YES please advance''", OF h1 h2 h3]
       yes
  have y: "stage_index (interview_stage (fst (snd (process_response stub_yes ''Fine.''
      (session_at Technical_questions, []))))) = stage_index Technical_questions + 1"
    using yes by (simp add: session_at_def)
  have h4: "stub_no (length ([] :: request list))
           (Should_advance_request
              (chat_history_str (memory (record_exchange ''Fine.'' (session_at Technical_questions))))
              (stage_str (interview_stage (session_at Technical_questions))))
         = Inr ''NO, not yet''"
    by (simp add: stub_no_def)
  have no: "\<not> (\<exists>p q. ''NO, not yet'' = p @ ''YES'' @ q)"
    using str_in_iff [of "''YES''" "''NO, not yet''"] by simp
  from process_response_advances_iff_yes
         [where s = "session_at Technical_questions" and llm = stub_no and sent = "[]"
            and response = "''Fine.''" and decision = "''NO, not yet''", OF h1 h2 h4]
       no
  have n: "interview_stage (fst (snd (process_response stub_no ''Fine.''
      (session_at Technical_questions, [])))) = Technical_questions"
    by (simp add: session_at_def)
  from e y yes n no show ?thesis by simp
qed

section \<open>The terminal stage\<close>

text \<open>
  Claim C3. At the closing stage \<open>advance_stage\<close> changes nothing: applied any number of
  times it returns the session it was given, and as an operation of a run it returns
  no error and leaves the session and the requests sent as they were.
\<close>

theorem advance_at_closing_noop:
  "interview_stage s = Closing \<Longrightarrow>
     (advance_stage ^^ n) s = s \<and> step llm Advance_stage (s, sent) = (None, s, sent)"
  by (induction n) (simp_all add: advance_stage_closing)

theorem advance_at_closing_noop_witness:
  "interview_stage (session_at Closing) = Closing
   \<and> (advance_stage ^^ 3) (session_at Closing) = session_at Closing
   \<and> step stub_yes Advance_stage (session_at Closing, []) = (None, session_at Closing, [])"
proof -
  have h: "interview_stage (session_at Closing) = Closing" by (simp add: session_at_def)
  from advance_at_closing_noop [OF h, of 3 stub_yes "[]"] h show ?thesis by simp
qed

section \<open>Reset\<close>

text \<open>
  Claim C9. After any sequence of operations from any state, \<open>initialize_session\<close> leaves
  the session equal to a newly constructed one: no candidate name, no job position, the
  introduction stage, an empty last question, an empty memory and no resume information.
\<close>

theorem reset_gives_fresh_session:
  "fst (snd (step llm Initialize_session (run llm ops w))) = AIInterviewer"
  by (cases "run llm ops w") (simp add: initialize_session_def AIInterviewer_def)

theorem reset_gives_fresh_session_witness:
  "fst (snd (step stub_yes Initialize_session
     (run stub_yes [Next_question, Process_response ''Alice'', Process_response ''Engineer'',
                    Process_response ''I write code.'']
        (AIInterviewer, [])))) = AIInterviewer"
  using reset_gives_fresh_session [of stub_yes
      "[Next_question, Process_response ''Alice'', Process_response ''Engineer'',
        Process_response ''I write code.'']" "(AIInterviewer, [])"]
  by simp

section \<open>The scripted introduction\<close>

lemma strip_simps: "strip ''Alice'' = ''Alice''" "strip ''   '' = []" "strip ''Engineer'' = ''Engineer''"
  by (simp_all add: strip_def is_space_def)

text \<open>
  Claim C4. On a new session, with or without resume information, the first
  \<open>get_next_question\<close> returns the fixed prompt asking for the name and sends no request
  to the generation service. A following \<open>process_response\<close> with the answer \<open>Alice\<close>
  sets the candidate name to \<open>Alice\<close> and returns the fixed prompt asking for the
  position with that name filled in, again without sending a request. This holds for
  every service, since none is called.
\<close>

theorem introduction_script:
  "(let s0 = AIInterviewer\<lparr>resume_entities := r\<rparr>;
        (q1, s1, sent1) = get_next_question llm (s0, sent);
        (q2, s2, sent2) = process_response llm ''Alice'' (s1, sent1)
    in q1 = Inr ''Hello! I'm your AI interviewer today. Could you please tell me your name?''
       \<and> sent1 = sent
       \<and> candidate_name s2 = Some ''Alice''
       \<and> q2 = Inr ''Nice to meet you, Alice! What position are you applying for?''
       \<and> sent2 = sent)"
  by (simp add: AIInterviewer_def name_prompt_def role_prompt_def record_exchange_def
      strip_simps)

theorem introduction_script_witness:
  "fst (get_next_question stub_down (AIInterviewer, [])) =
     Inr ''Hello! I'm your AI interviewer today. Could you please tell me your name?''
   \<and> fst (process_response stub_down ''Alice''
           (snd (get_next_question stub_down (AIInterviewer, [])))) =
     Inr ''Nice to meet you, Alice! What position are you applying for?''
   \<and> snd (snd (process_response stub_down ''Alice''
           (snd (get_next_question stub_down (AIInterviewer, []))))) = []"
  using introduction_script [of None stub_down "[]"]
  by (simp add: AIInterviewer_def name_prompt_def role_prompt_def record_exchange_def
      strip_simps)

text \<open>
  Claim C5, as stated, fails: a field that holds the empty string counts as not given.
  After the answers \<open>Alice\<close> and three blanks both fields are assigned and the stage is
  the introduction, yet \<open>get_next_question\<close> returns the position prompt again and the
  stage stays the introduction.
\<close>

theorem welcome_needs_nonempty_fields_counterexample:
  "fst (run stub_down [Next_question, Process_response ''Alice'', Process_response ''   '']
          (AIInterviewer, [])) = blank_role_session
   \<and> interview_stage blank_role_session = Introduction
   \<and> candidate_name blank_role_session \<noteq> None
   \<and> job_position blank_role_session \<noteq> None
   \<and> get_next_question stub_down (blank_role_session, []) =
       (Inr ''Nice to meet you, Alice! What position are you applying for?'',
        blank_role_session, [])
   \<and> interview_stage (fst (snd (get_next_question stub_down (blank_role_session, []))))
       \<noteq> General_questions"
  by (simp add: AIInterviewer_def blank_role_session_def name_prompt_def role_prompt_def
      record_exchange_def save_context_def strip_simps)

text \<open>
  Claim C5, amended. In the introduction stage with the candidate name and the job
  position both set to non-empty strings, \<open>get_next_question\<close> moves the stage to the
  general questions, returns the fixed welcome text with the name and the position
  filled in, keeps it as the last question, and sends no request to the service.
\<close>

theorem introduction_to_general:
  assumes "interview_stage s = Introduction"
    and "candidate_name s = Some name" and "name \<noteq> []"
    and "job_position s = Some job" and "job \<noteq> []"
  shows "get_next_question llm (s, sent) =
           (Inr (''Thank you, '' @ name @ ''. Let's begin the interview for the '' @ job
                 @ '' position. Could you tell me a bit about yourself and your professional background?''),
            s\<lparr>interview_stage := General_questions,
              last_question :=
                ''Thank you, '' @ name @ ''. Let's begin the interview for the '' @ job
                @ '' position. Could you tell me a bit about yourself and your professional background?''\<rparr>,
            sent)"
  using assms by (simp add: welcome_prompt_def)

theorem introduction_to_general_witness:
  "interview_stage alice_engineer = Introduction
   \<and> fst (get_next_question stub_down (alice_engineer, [])) =
       Inr ''Thank you, Alice. Let's begin the interview for the Engineer position. Could you tell me a bit about yourself and your professional background?''
   \<and> interview_stage (fst (snd (get_next_question stub_down (alice_engineer, [])))) =
       General_questions
   \<and> snd (snd (get_next_question stub_down (alice_engineer, []))) = []"
proof -
  have h1: "interview_stage alice_engineer = Introduction"
    by (simp add: alice_engineer_def AIInterviewer_def)
  have h2: "candidate_name alice_engineer = Some ''Alice''"
    by (simp add: alice_engineer_def)
  have h3: "job_position alice_engineer = Some ''Engineer''"
    by (simp add: alice_engineer_def)
  from introduction_to_general [where llm = stub_down and sent = "[]", OF h1 h2 _ h3] h1
  show ?thesis by simp
qed

section \<open>Requests to the generation service\<close>

text \<open>
  Claim C6, as stated, fails in the kind of the error: at the general-questions stage a
  service that raises a \<open>RuntimeError\<close> makes \<open>get_next_question\<close> raise that
  \<open>RuntimeError\<close>, which is not a generation-unavailable error.
\<close>

theorem generation_failure_kind_counterexample:
  "interview_stage (session_at General_questions) = General_questions
   \<and> stub_down (length ([] :: request list)) (question_request (session_at General_questions))
       = Inl (PyError ''RuntimeError'' ''service unavailable'')
   \<and> fst (get_next_question stub_down (session_at General_questions, []))
       = Inl (PyError ''RuntimeError'' ''service unavailable'')
   \<and> \<not> spec_generation_unavailable (PyError ''RuntimeError'' ''service unavailable'')"
  by (simp add: session_at_def AIInterviewer_def stub_down_def chain_run_def
      spec_generation_unavailable_def)

text \<open>
  Claim C6, amended. At the general-questions stage, when the generation call made by
  \<open>get_next_question\<close> raises, the exception of that call reaches the caller as it is,
  not translated into another kind, and the session is exactly the one before the call:
  stage, memory, last question and all other fields. One request was sent and no other
  question is put in its place.
\<close>

theorem generation_failure_propagates:
  assumes "interview_stage s = General_questions"
    and "llm (length sent) (question_request s) = Inl e"
  shows "get_next_question llm (s, sent) = (Inl e, s, sent @ [question_request s])"
  using assms by (simp add: chain_run_def)

theorem generation_failure_propagates_witness:
  "interview_stage (session_at General_questions) = General_questions
   \<and> stub_down (length ([] :: request list)) (question_request (session_at General_questions))
       = Inl (PyError ''RuntimeError'' ''service unavailable'')
   \<and> get_next_question stub_down (session_at General_questions, []) =
       (Inl (PyError ''RuntimeError'' ''service unavailable''), session_at General_questions,
        [question_request (session_at General_questions)])"
proof -
  have h1: "interview_stage (session_at General_questions) = General_questions"
    by (simp add: session_at_def)
  have h2: "stub_down (length ([] :: request list))
              (question_request (session_at General_questions))
            = Inl (PyError ''RuntimeError'' ''service unavailable'')"
    by (simp add: stub_down_def)
  from generation_failure_propagates [where llm = stub_down, OF h1 h2] h1 h2
  show ?thesis by simp
qed

text \<open>
  Claim C10. At every stage other than the introduction \<open>get_next_question\<close> sends
  exactly one request, built without failing from the state: a candidate name that is
  \<open>None\<close> is rendered as \<open>Unknown\<close>, a job position that is \<open>None\<close> as
  \<open>the position\<close>, and missing resume information as
  \<open>No resume information available.\<close>
\<close>

theorem request_placeholders:
  assumes "interview_stage s \<noteq> Introduction"
  shows "snd (snd (get_next_question llm (s, sent))) = sent @ [question_request s]
     \<and> (\<exists>job name info.
           question_request s =
             Question_request job (stage_str (interview_stage s)) name
               (chat_history_str (memory s)) info
           \<and> (candidate_name s = None \<longrightarrow> name = ''Unknown'')
           \<and> (job_position s = None \<longrightarrow> job = ''the position'')
           \<and> (resume_entities s = None \<longrightarrow> info = ''No resume information available.''))"
  using assms
  by (simp add: chain_run_def question_request_def load_memory_variables_def Let_def
      split: sum.splits prod.splits)

theorem request_placeholders_witness:
  "interview_stage (session_at Technical_questions) \<noteq> Introduction
   \<and> snd (snd (get_next_question stub_down (session_at Technical_questions, []))) =
       [Question_request ''the position'' ''technical_questions'' ''Unknown'' []
          ''No resume information available.'']"
proof -
  have h: "interview_stage (session_at Technical_questions) \<noteq> Introduction"
    by (simp add: session_at_def)
  from request_placeholders [where llm = stub_down and sent = "[]", OF h] h
  show ?thesis
    by (simp add: session_at_def AIInterviewer_def chat_history_str_def chain_run_def
        stub_down_def question_request_def load_memory_variables_def)
qed

section \<open>Properties of single calls\<close>

lemma gnq_props:
  assumes "get_next_question llm (s, sent) = (r, s', sent')"
  shows "candidate_name s' = candidate_name s" "job_position s' = job_position s"
    "memory s' = memory s" "resume_entities s' = resume_entities s"
    "interview_stage s' = interview_stage s
     \<or> (interview_stage s = Introduction \<and> interview_stage s' = General_questions)"
  using assms
  by (auto simp: chain_run_def split: if_splits sum.splits prod.splits)

lemma gnq_output:
  assumes "get_next_question llm (s, sent) = (r, s', sent')"
    and "truthy (candidate_name s)" and "truthy (job_position s)"
  shows "(r = Inr (welcome_prompt (candidate_name s) (job_position s)) \<and> sent' = sent)
       \<or> (sent' = sent @ [question_request s] \<and> r = llm (length sent) (question_request s))"
  using assms
  by (auto simp: chain_run_def split: if_splits sum.splits prod.splits)

declare get_next_question.simps [simp del]

lemma record_exchange_fields:
  "candidate_name (record_exchange a s) = candidate_name s"
  "job_position (record_exchange a s) = job_position s"
  "interview_stage (record_exchange a s) = interview_stage s"
  "last_question (record_exchange a s) = last_question s"
  "resume_entities (record_exchange a s) = resume_entities s"
  "memory (record_exchange a s) = memory s @ [HumanMessage (last_question s), AIMessage a]"
  by (simp_all add: record_exchange_def save_context_def)

text \<open>
  The four ways through \<open>process_response\<close>: the answer is taken as the name, as the
  position, the service is asked for the advance decision, or the stage is the closing.
\<close>

lemma pr_name:
  "interview_stage s = Introduction \<Longrightarrow> \<not> truthy (candidate_name s) \<Longrightarrow>
   process_response llm a (s, sent) =
     get_next_question llm ((record_exchange a s)\<lparr>candidate_name := Some (strip a)\<rparr>, sent)"
  by (simp add: record_exchange_fields Let_def)

lemma pr_role:
  "interview_stage s = Introduction \<Longrightarrow> truthy (candidate_name s) \<Longrightarrow>
   \<not> truthy (job_position s) \<Longrightarrow>
   process_response llm a (s, sent) =
     get_next_question llm ((record_exchange a s)\<lparr>job_position := Some (strip a)\<rparr>, sent)"
  by (simp add: record_exchange_fields Let_def)

lemma pr_decide:
  "interview_stage s \<noteq> Closing \<Longrightarrow>
   interview_stage s \<noteq> Introduction \<or> (truthy (candidate_name s) \<and> truthy (job_position s)) \<Longrightarrow>
   process_response llm a (s, sent) =
     (case llm (length sent) (decision_request a s) of
        Inl e \<Rightarrow> (Inl e, record_exchange a s, sent @ [decision_request a s])
      | Inr d \<Rightarrow>
          get_next_question llm
            (if str_in ''YES'' d then advance_stage (record_exchange a s) else record_exchange a s,
             sent @ [decision_request a s]))"
  by (auto simp: record_exchange_fields Let_def chain_run_def decision_request_def
      load_memory_variables_def split: sum.splits)

lemma pr_closing:
  "interview_stage s = Closing \<Longrightarrow>
   process_response llm a (s, sent) = get_next_question llm (record_exchange a s, sent)"
  by (simp add: record_exchange_fields Let_def)

declare process_response.simps [simp del]

lemma pr_cases:
  obtains (name) "interview_stage s = Introduction" "\<not> truthy (candidate_name s)"
  | (role) "interview_stage s = Introduction" "truthy (candidate_name s)"
      "\<not> truthy (job_position s)"
  | (decide) "interview_stage s \<noteq> Closing"
      "interview_stage s \<noteq> Introduction \<or> (truthy (candidate_name s) \<and> truthy (job_position s))"
  | (closing) "interview_stage s = Closing"
  by (cases "interview_stage s") auto

lemma pr_memory:
  assumes "process_response llm a (s, sent) = (r, s', sent')"
  shows "memory s' = memory s @ [HumanMessage (last_question s), AIMessage a]"
proof (cases rule: pr_cases [of s])
  case name
  with assms show ?thesis using gnq_props(3) by (fastforce simp: pr_name record_exchange_fields)
next
  case role
  with assms show ?thesis using gnq_props(3) by (fastforce simp: pr_role record_exchange_fields)
next
  case decide
  show ?thesis
  proof (cases "llm (length sent) (decision_request a s)")
    case (Inl e)
    with assms decide show ?thesis by (auto simp: pr_decide record_exchange_fields)
  next
    case (Inr d)
    with assms decide have
      "get_next_question llm
         (if str_in ''YES'' d then advance_stage (record_exchange a s) else record_exchange a s,
          sent @ [decision_request a s]) = (r, s', sent')"
      by (simp add: pr_decide)
    from gnq_props(3) [OF this] show ?thesis
      by (simp add: advance_stage_other_fields record_exchange_fields)
  qed
next
  case closing
  with assms show ?thesis using gnq_props(3) by (fastforce simp: pr_closing record_exchange_fields)
qed

lemma advance_stage_index:
  "interview_stage s \<noteq> Closing \<Longrightarrow>
   stage_index (interview_stage (advance_stage s)) = stage_index (interview_stage s) + 1"
  by (cases "interview_stage s") (simp_all add: advance_stage_stage stage_index_simps)

lemma advance_stage_not_introduction: "interview_stage (advance_stage s) \<noteq> Introduction"
  by (cases "interview_stage s") (simp_all add: advance_stage_stage)

lemma advance_stage_fwd:
  "interview_stage (advance_stage s) = interview_stage s
   \<or> stage_index (interview_stage (advance_stage s)) = stage_index (interview_stage s) + 1"
  by (cases "interview_stage s") (simp_all add: advance_stage_stage stage_index_simps)

lemma gnq_stage_fwd:
  assumes "get_next_question llm (s, sent) = (r, s', sent')"
  shows "interview_stage s' = interview_stage s
       \<or> stage_index (interview_stage s') = stage_index (interview_stage s) + 1"
  using gnq_props(5) [OF assms] by (auto simp: stage_index_simps)

lemma gnq_stage_same:
  assumes "get_next_question llm (s, sent) = (r, s', sent')"
    and "interview_stage s \<noteq> Introduction"
  shows "interview_stage s' = interview_stage s"
  using gnq_props(5) [OF assms(1)] assms(2) by auto

lemma pr_stage_fwd:
  assumes "process_response llm a (s, sent) = (r, s', sent')"
  shows "interview_stage s' = interview_stage s
       \<or> stage_index (interview_stage s') = stage_index (interview_stage s) + 1"
proof (cases rule: pr_cases [of s])
  case name
  with assms have "get_next_question llm
      ((record_exchange a s)\<lparr>candidate_name := Some (strip a)\<rparr>, sent) = (r, s', sent')"
    by (simp add: pr_name)
  from gnq_stage_fwd [OF this] show ?thesis by (simp add: record_exchange_fields)
next
  case role
  with assms have "get_next_question llm
      ((record_exchange a s)\<lparr>job_position := Some (strip a)\<rparr>, sent) = (r, s', sent')"
    by (simp add: pr_role)
  from gnq_stage_fwd [OF this] show ?thesis by (simp add: record_exchange_fields)
next
  case decide
  show ?thesis
  proof (cases "llm (length sent) (decision_request a s)")
    case (Inl e)
    with assms decide show ?thesis by (auto simp: pr_decide record_exchange_fields)
  next
    case (Inr d)
    show ?thesis
    proof (cases "str_in ''YES'' d")
      case True
      with assms decide Inr have g: "get_next_question llm
          (advance_stage (record_exchange a s), sent @ [decision_request a s]) = (r, s', sent')"
        by (simp add: pr_decide)
      have "interview_stage s' = interview_stage (advance_stage (record_exchange a s))"
        using gnq_stage_same [OF g] advance_stage_not_introduction by blast
      then show ?thesis
        using advance_stage_index [of "record_exchange a s"] decide(1)
        by (simp add: record_exchange_fields)
    next
      case False
      with assms decide Inr have g: "get_next_question llm
          (record_exchange a s, sent @ [decision_request a s]) = (r, s', sent')"
        by (simp add: pr_decide)
      from gnq_stage_fwd [OF g] show ?thesis by (simp add: record_exchange_fields)
    qed
  qed
next
  case closing
  with assms have "get_next_question llm (record_exchange a s, sent) = (r, s', sent')"
    by (simp add: pr_closing)
  from gnq_stage_fwd [OF this] show ?thesis by (simp add: record_exchange_fields)
qed

lemma step_stage_fwd:
  assumes "x \<noteq> Initialize_session"
  shows "interview_stage (fst (snd (step llm x w))) = interview_stage (fst w)
       \<or> stage_index (interview_stage (fst (snd (step llm x w))))
           = stage_index (interview_stage (fst w)) + 1"
proof (cases w)
  case (Pair s sent)
  show ?thesis
  proof (cases x)
    case Next_question
    obtain r s' sent' where g: "get_next_question llm (s, sent) = (r, s', sent')"
      by (metis prod_cases3)
    from gnq_stage_fwd [OF g] show ?thesis using Pair Next_question g by simp
  next
    case (Process_response a)
    obtain r s' sent' where g: "process_response llm a (s, sent) = (r, s', sent')"
      by (metis prod_cases3)
    from pr_stage_fwd [OF g] show ?thesis using Pair Process_response g by simp
  next
    case Advance_stage
    then show ?thesis using Pair advance_stage_fwd [of s] by simp
  next
    case (Set_resume_entities r)
    then show ?thesis using Pair by (simp add: set_resume_entities_def)
  next
    case Initialize_session
    with assms show ?thesis by simp
  qed
qed

section \<open>Properties of runs\<close>

lemma run_append: "run llm (xs @ ys) w = run llm ys (run llm xs w)"
  by (induction xs arbitrary: w) simp_all

lemma run_take_Suc:
  "i < length ops \<Longrightarrow>
   run llm (take (Suc i) ops) w = snd (step llm (ops ! i) (run llm (take i ops) w))"
  by (simp add: take_Suc_conv_app_nth run_append)

lemma run_stage_mono:
  "Initialize_session \<notin> set ops \<Longrightarrow>
   stage_index (interview_stage (fst w)) \<le> stage_index (interview_stage (fst (run llm ops w)))"
proof (induction ops arbitrary: w)
  case Nil
  then show ?case by simp
next
  case (Cons x xs)
  have "stage_index (interview_stage (fst w))
          \<le> stage_index (interview_stage (fst (snd (step llm x w))))"
    using step_stage_fwd [of x llm w] Cons.prems by auto
  moreover have "stage_index (interview_stage (fst (snd (step llm x w))))
          \<le> stage_index (interview_stage (fst (run llm xs (snd (step llm x w)))))"
    using Cons.IH Cons.prems by simp
  ultimately show ?case by simp
qed

lemmas eval_simps =
  get_next_question.simps process_response.simps AIInterviewer_def name_prompt_def
  role_prompt_def welcome_prompt_def record_exchange_def save_context_def
  load_memory_variables_def chain_run_def advance_stage_def stages_def Let_def
  question_request_def strip_def is_space_def

text \<open>
  Claim C2. Along every sequence of operations without a reset, the stage never moves
  back in the fixed order, and each single operation either leaves the stage as it is
  or moves it to the next position: no stage is skipped.
\<close>

theorem stage_moves_forward:
  assumes "Initialize_session \<notin> set ops"
  shows "stage_index (interview_stage (fst w))
           \<le> stage_index (interview_stage (fst (run llm ops w)))
       \<and> (\<forall>i < length ops.
            interview_stage (fst (run llm (take (Suc i) ops) w))
              = interview_stage (fst (run llm (take i ops) w))
            \<or> stage_index (interview_stage (fst (run llm (take (Suc i) ops) w)))
              = stage_index (interview_stage (fst (run llm (take i ops) w))) + 1)"
proof (intro conjI allI impI)
  show "stage_index (interview_stage (fst w))
          \<le> stage_index (interview_stage (fst (run llm ops w)))"
    using assms by (rule run_stage_mono)
next
  fix i assume i: "i < length ops"
  then have "ops ! i \<noteq> Initialize_session" using assms by (metis nth_mem)
  from step_stage_fwd [OF this, of llm "run llm (take i ops) w"]
  show "interview_stage (fst (run llm (take (Suc i) ops) w))
              = interview_stage (fst (run llm (take i ops) w))
            \<or> stage_index (interview_stage (fst (run llm (take (Suc i) ops) w)))
              = stage_index (interview_stage (fst (run llm (take i ops) w))) + 1"
    using i by (simp add: run_take_Suc)
qed

theorem stage_moves_forward_witness:
  "Initialize_session \<notin> set demo_ops
   \<and> stage_index (interview_stage (fst (AIInterviewer, ([] :: request list))))
       \<le> stage_index (interview_stage (fst (run stub_yes demo_ops (AIInterviewer, []))))
   \<and> interview_stage (fst (run stub_yes demo_ops (AIInterviewer, []))) = Technical_questions"
proof -
  have h: "Initialize_session \<notin> set demo_ops" by (simp add: demo_ops_def)
  have e: "interview_stage (fst (run stub_yes demo_ops (AIInterviewer, []))) = Technical_questions"
    by (simp add: demo_ops_def eval_simps stub_yes_def)
  from stage_moves_forward [OF h, of "(AIInterviewer, [])" stub_yes] h e
  show ?thesis by simp
qed

section \<open>The transcript\<close>

lemma step_memory:
  assumes "x \<noteq> Initialize_session"
  shows "memory (fst (snd (step llm x w))) =
           memory (fst w) @
           (case x of Process_response a \<Rightarrow> [HumanMessage (last_question (fst w)), AIMessage a]
            | _ \<Rightarrow> [])"
proof (cases w)
  case (Pair s sent)
  show ?thesis
  proof (cases x)
    case Next_question
    obtain r s' sent' where g: "get_next_question llm (s, sent) = (r, s', sent')"
      by (metis prod_cases3)
    from gnq_props(3) [OF g] show ?thesis using Pair Next_question g by simp
  next
    case (Process_response a)
    obtain r s' sent' where g: "process_response llm a (s, sent) = (r, s', sent')"
      by (metis prod_cases3)
    from pr_memory [OF g] show ?thesis using Pair Process_response g by simp
  next
    case Advance_stage
    then show ?thesis using Pair by (simp add: advance_stage_other_fields)
  next
    case (Set_resume_entities r)
    then show ?thesis using Pair by (simp add: set_resume_entities_def)
  next
    case Initialize_session
    with assms show ?thesis by simp
  qed
qed

lemma run_memory:
  "Initialize_session \<notin> set ops \<Longrightarrow>
   memory (fst (run llm ops w)) = memory (fst w) @ transcript_messages (exchanges llm ops w)"
proof (induction ops arbitrary: w)
  case Nil
  then show ?case by simp
next
  case (Cons x xs)
  then have x: "x \<noteq> Initialize_session" and xs: "Initialize_session \<notin> set xs" by auto
  have ih: "memory (fst (run llm xs (snd (step llm x w)))) =
              memory (fst (snd (step llm x w)))
              @ transcript_messages (exchanges llm xs (snd (step llm x w)))"
    using Cons.IH [OF xs] .
  show ?case using ih step_memory [OF x, of llm w] by (cases x) simp_all
qed

lemma length_exchanges:
  "length (exchanges llm ops w) = length (filter is_process_response ops)"
proof (induction ops arbitrary: w)
  case Nil
  then show ?case by simp
next
  case (Cons x xs)
  then show ?case by (cases x) simp_all
qed

text \<open>
  Claim C8. Along every sequence of operations without a reset, the memory after the
  run is the memory before it followed by one question and answer pair for each
  \<open>process_response\<close> call, in the order of the calls: the question pending at the call
  and the answer given. The number of pairs added is the number of calls; nothing is
  removed or reordered, whether the calls succeed or raise.
\<close>

theorem transcript_append_only:
  assumes "Initialize_session \<notin> set ops"
  shows "memory (fst (run llm ops w))
           = memory (fst w) @ transcript_messages (exchanges llm ops w)
       \<and> length (exchanges llm ops w) = length (filter is_process_response ops)"
  using assms by (simp add: run_memory length_exchanges)

theorem transcript_append_only_witness:
  "Initialize_session \<notin> set demo_ops
   \<and> memory (fst (run stub_yes demo_ops (AIInterviewer, []))) =
       transcript_messages
         [(''Hello! I'm your AI interviewer today. Could you please tell me your name?'',
           ''Alice''),
          (''Nice to meet you, Alice! What position are you applying for?'', ''Engineer''),
          (''Thank you, Alice. Let's begin the interview for the Engineer position. Could you tell me a bit about yourself and your professional background?'',
           ''I write code.'')]
   \<and> length (exchanges stub_yes demo_ops (AIInterviewer, [])) = 3"
proof -
  have h: "Initialize_session \<notin> set demo_ops" by (simp add: demo_ops_def)
  have e: "exchanges stub_yes demo_ops (AIInterviewer, []) =
         [(''Hello! I'm your AI interviewer today. Could you please tell me your name?'',
           ''Alice''),
          (''Nice to meet you, Alice! What position are you applying for?'', ''Engineer''),
          (''Thank you, Alice. Let's begin the interview for the Engineer position. Could you tell me a bit about yourself and your professional background?'',
           ''I write code.'')]"
    by (simp add: demo_ops_def eval_simps stub_yes_def)
  have m: "memory (fst (AIInterviewer, ([] :: request list))) = []"
    by (simp add: AIInterviewer_def)
  from transcript_append_only [OF h, of stub_yes "(AIInterviewer, [])"] h e m
  show ?thesis by simp
qed

section \<open>Leaving the introduction\<close>

lemma pr_identity:
  assumes "process_response llm a (s, sent) = (r, s', sent')"
    and "truthy (candidate_name s)" and "truthy (job_position s)"
  shows "candidate_name s' = candidate_name s" "job_position s' = job_position s"
    "r = Inr (welcome_prompt (candidate_name s) (job_position s))
     \<or> from_service llm sent sent' (Some r)"
proof -
  have "candidate_name s' = candidate_name s \<and> job_position s' = job_position s
      \<and> (r = Inr (welcome_prompt (candidate_name s) (job_position s))
         \<or> from_service llm sent sent' (Some r))"
  proof (cases rule: pr_cases [of s])
    case name
    with assms show ?thesis by simp
  next
    case role
    with assms show ?thesis by simp
  next
    case decide
    show ?thesis
    proof (cases "llm (length sent) (decision_request a s)")
      case (Inl e)
      with assms decide show ?thesis
        by (auto simp: pr_decide record_exchange_fields from_service_def)
    next
      case (Inr d)
      let ?s = "if str_in ''YES'' d then advance_stage (record_exchange a s)
                else record_exchange a s"
      have f: "candidate_name ?s = candidate_name s" "job_position ?s = job_position s"
        by (simp_all add: advance_stage_other_fields record_exchange_fields)
      from assms decide Inr have g: "get_next_question llm
          (?s, sent @ [decision_request a s]) = (r, s', sent')"
        by (simp add: pr_decide)
      from gnq_props(1,2) [OF g] gnq_output [OF g] f assms(2,3)
      show ?thesis by (auto simp: from_service_def)
    qed
  next
    case closing
    let ?s = "record_exchange a s"
    have f: "candidate_name ?s = candidate_name s" "job_position ?s = job_position s"
      by (simp_all add: record_exchange_fields)
    from assms closing have g: "get_next_question llm (?s, sent) = (r, s', sent')"
      by (simp add: pr_closing)
    have "interview_stage ?s \<noteq> Introduction" using closing by (simp add: record_exchange_fields)
    then have "get_next_question llm (?s, sent) =
        (case llm (length sent) (question_request ?s) of
           Inl e \<Rightarrow> (Inl e, ?s, sent @ [question_request ?s])
         | Inr q \<Rightarrow> (Inr q, ?s\<lparr>last_question := q\<rparr>, sent @ [question_request ?s]))"
      by (rule gnq_later)
    with g f show ?thesis by (auto simp: from_service_def split: sum.splits)
  qed
  then show "candidate_name s' = candidate_name s" "job_position s' = job_position s"
    "r = Inr (welcome_prompt (candidate_name s) (job_position s))
     \<or> from_service llm sent sent' (Some r)" by simp_all
qed

lemma gnq_identity:
  assumes "get_next_question llm (s, sent) = (r, s', sent')"
    and "truthy (candidate_name s)" and "truthy (job_position s)"
  shows "r = Inr (welcome_prompt (candidate_name s) (job_position s))
       \<or> from_service llm sent sent' (Some r)"
    and "interview_stage s' \<noteq> Introduction"
proof -
  from gnq_output [OF assms] show "r = Inr (welcome_prompt (candidate_name s) (job_position s))
       \<or> from_service llm sent sent' (Some r)"
    by (auto simp: from_service_def)
  show "interview_stage s' \<noteq> Introduction"
  proof (cases "interview_stage s = Introduction")
    case True
    with assms show ?thesis by (auto simp: get_next_question.simps)
  next
    case False
    with gnq_stage_same [OF assms(1)] show ?thesis by simp
  qed
qed

lemma step_identity:
  assumes "truthy (candidate_name (fst w))" and "truthy (job_position (fst w))"
    and "x \<noteq> Initialize_session"
  shows "candidate_name (fst (snd (step llm x w))) = candidate_name (fst w)
       \<and> job_position (fst (snd (step llm x w))) = job_position (fst w)
       \<and> (fst (step llm x w) = None
          \<or> fst (step llm x w)
              = Some (Inr (welcome_prompt (candidate_name (fst w)) (job_position (fst w))))
          \<or> from_service llm (snd w) (snd (snd (step llm x w))) (fst (step llm x w)))"
proof (cases w)
  case (Pair s sent)
  show ?thesis
  proof (cases x)
    case Next_question
    obtain r s' sent' where g: "get_next_question llm (s, sent) = (r, s', sent')"
      by (metis prod_cases3)
    from gnq_props(1,2) [OF g] gnq_identity(1) [OF g] assms(1,2)
    show ?thesis using Pair Next_question g by auto
  next
    case (Process_response a)
    obtain r s' sent' where g: "process_response llm a (s, sent) = (r, s', sent')"
      by (metis prod_cases3)
    from pr_identity [OF g] assms(1,2)
    show ?thesis using Pair Process_response g by auto
  next
    case Advance_stage
    then show ?thesis using Pair by (simp add: advance_stage_other_fields)
  next
    case (Set_resume_entities r)
    then show ?thesis using Pair by (simp add: set_resume_entities_def)
  next
    case Initialize_session
    with assms show ?thesis by simp
  qed
qed

lemma run_identity:
  assumes "truthy (candidate_name (fst w))" and "truthy (job_position (fst w))"
    and "Initialize_session \<notin> set ops"
  shows "candidate_name (fst (run llm ops w)) = candidate_name (fst w)
       \<and> job_position (fst (run llm ops w)) = job_position (fst w)"
  using assms
proof (induction ops arbitrary: w)
  case Nil
  then show ?case by simp
next
  case (Cons x xs)
  then have x: "x \<noteq> Initialize_session" and xs: "Initialize_session \<notin> set xs" by auto
  from step_identity [OF Cons.prems(1,2) x, of llm]
  have s: "candidate_name (fst (snd (step llm x w))) = candidate_name (fst w)"
    "job_position (fst (snd (step llm x w))) = job_position (fst w)" by simp_all
  with Cons.prems have "truthy (candidate_name (fst (snd (step llm x w))))"
    "truthy (job_position (fst (snd (step llm x w))))" by simp_all
  from Cons.IH [OF this xs] s show ?case by simp
qed

lemma stage_index_zero: "stage_index st = 0 \<longleftrightarrow> st = Introduction"
  by (cases st) (simp_all add: stage_index_simps)

lemma run_not_introduction:
  assumes "Initialize_session \<notin> set ops" and "interview_stage (fst w) \<noteq> Introduction"
  shows "interview_stage (fst (run llm ops w)) \<noteq> Introduction"
proof -
  have "stage_index (interview_stage (fst w)) \<noteq> 0" using assms(2) by (simp add: stage_index_zero)
  with run_stage_mono [OF assms(1), of w llm]
  have "stage_index (interview_stage (fst (run llm ops w))) \<noteq> 0" by simp
  then show ?thesis by (simp add: stage_index_zero)
qed

text \<open>
  Claim C7, as stated, fails for an empty answer: after the answers \<open>Bob\<close> and the
  empty string both fields have been assigned by \<open>process_response\<close>, the session is
  still in the introduction, and the next \<open>get_next_question\<close> returns the position
  prompt once more.
\<close>

theorem role_prompt_repeats_counterexample:
  "candidate_name (fst (run stub_down empty_role_ops (AIInterviewer, []))) = Some ''Bob''
   \<and> job_position (fst (run stub_down empty_role_ops (AIInterviewer, []))) = Some []
   \<and> interview_stage (fst (run stub_down empty_role_ops (AIInterviewer, []))) = Introduction
   \<and> fst (step stub_down Next_question (run stub_down empty_role_ops (AIInterviewer, [])))
       = Some (Inr ''Nice to meet you, Bob! What position are you applying for?'')
   \<and> interview_stage
        (fst (snd (step stub_down Next_question
                     (run stub_down empty_role_ops (AIInterviewer, [])))))
       = Introduction"
  by (simp add: empty_role_ops_def eval_simps)

lemma both_fields_run:
  assumes "truthy (candidate_name (fst w))" and "truthy (job_position (fst w))"
    and "Initialize_session \<notin> set ops"
  shows "candidate_name (fst (run llm ops w)) = candidate_name (fst w)
       \<and> job_position (fst (run llm ops w)) = job_position (fst w)
       \<and> (interview_stage (fst w) \<noteq> Introduction \<or> Next_question \<in> set ops \<longrightarrow>
            interview_stage (fst (run llm ops w)) \<noteq> Introduction)
       \<and> (\<forall>i < length ops.
            output_at llm ops w i = None
            \<or> output_at llm ops w i
                = Some (Inr (welcome_prompt (candidate_name (fst w)) (job_position (fst w))))
            \<or> from_service llm (snd (run llm (take i ops) w))
                 (snd (run llm (take (Suc i) ops) w)) (output_at llm ops w i))"
proof (intro conjI allI impI)
  show "candidate_name (fst (run llm ops w)) = candidate_name (fst w)"
    using run_identity [OF assms] by simp
  show "job_position (fst (run llm ops w)) = job_position (fst w)"
    using run_identity [OF assms] by simp
next
  assume "interview_stage (fst w) \<noteq> Introduction \<or> Next_question \<in> set ops"
  then show "interview_stage (fst (run llm ops w)) \<noteq> Introduction"
  proof
    assume "interview_stage (fst w) \<noteq> Introduction"
    with assms(3) show ?thesis by (rule run_not_introduction)
  next
    assume "Next_question \<in> set ops"
    then obtain xs ys where ops: "ops = xs @ Next_question # ys" by (meson split_list)
    then have xs: "Initialize_session \<notin> set xs" and ys: "Initialize_session \<notin> set ys"
      using assms(3) by auto
    let ?w = "run llm xs w"
    have t: "truthy (candidate_name (fst ?w))" "truthy (job_position (fst ?w))"
      using run_identity [OF assms(1,2) xs, of llm] assms(1,2) by simp_all
    obtain r s' sent' where g: "get_next_question llm (fst ?w, snd ?w) = (r, s', sent')"
      by (metis prod_cases3)
    from gnq_identity(2) [OF g t]
    have "interview_stage (fst (snd (step llm Next_question ?w))) \<noteq> Introduction"
      using g by (cases ?w) simp
    from run_not_introduction [OF ys this, of llm] show ?thesis
      by (simp add: ops run_append)
  qed
next
  fix i assume i: "i < length ops"
  let ?w = "run llm (take i ops) w"
  have ti: "Initialize_session \<notin> set (take i ops)"
    using assms(3) by (meson in_set_takeD)
  have x: "ops ! i \<noteq> Initialize_session" using assms(3) i by (metis nth_mem)
  have f: "candidate_name (fst ?w) = candidate_name (fst w)"
    "job_position (fst ?w) = job_position (fst w)"
    using run_identity [OF assms(1,2) ti, of llm] by simp_all
  then have t: "truthy (candidate_name (fst ?w))" "truthy (job_position (fst ?w))"
    using assms(1,2) by simp_all
  from step_identity [OF t x, of llm] f
  show "output_at llm ops w i = None
            \<or> output_at llm ops w i
                = Some (Inr (welcome_prompt (candidate_name (fst w)) (job_position (fst w))))
            \<or> from_service llm (snd (run llm (take i ops) w))
                 (snd (run llm (take (Suc i) ops) w)) (output_at llm ops w i)"
    using i by (simp add: output_at_def run_take_Suc)
qed

text \<open>
  An answer of whitespace only is stripped to the empty string, which counts as not
  given: the session stays in the introduction and the same prompt is returned.
\<close>

lemma is_space_code_points:
  "is_space c \<longleftrightarrow>
     (of_char c :: nat) \<in> {9, 10, 11, 12, 13, 28, 29, 30, 31, 32, 133, 160}"
  unfolding is_space_def Let_def by (simp only: insert_iff empty_iff) arith

lemma strip_blank:
  assumes "\<forall>c \<in> set a. (of_char c :: nat) \<in> {9, 10, 11, 12, 13, 28, 29, 30, 31, 32, 133, 160}"
  shows "strip a = []"
proof -
  have "\<forall>c \<in> set a. is_space c" using assms by (simp only: is_space_code_points)
  then have d: "dropWhile is_space a = []" by (induction a) simp_all
  show ?thesis unfolding strip_def by (simp only: d rev.simps dropWhile.simps)
qed

lemma pr_blank_name:
  assumes "\<forall>c \<in> set a. (of_char c :: nat) \<in> {9, 10, 11, 12, 13, 28, 29, 30, 31, 32, 133, 160}"
    and "interview_stage s = Introduction" and "\<not> truthy (candidate_name s)"
  shows "process_response llm a (s, sent) =
           (Inr name_prompt,
            (record_exchange a s)\<lparr>candidate_name := Some [], last_question := name_prompt\<rparr>,
            sent)"
  using assms(2,3)
  by (simp add: pr_name strip_blank [OF assms(1)] get_next_question.simps
      record_exchange_fields)

lemma pr_blank_role:
  assumes "\<forall>c \<in> set a. (of_char c :: nat) \<in> {9, 10, 11, 12, 13, 28, 29, 30, 31, 32, 133, 160}"
    and "interview_stage s = Introduction" and "truthy (candidate_name s)"
    and "\<not> truthy (job_position s)"
  shows "process_response llm a (s, sent) =
           (Inr (role_prompt (candidate_name s)),
            (record_exchange a s)\<lparr>job_position := Some [],
                                   last_question := role_prompt (candidate_name s)\<rparr>,
            sent)"
  using assms(2,3,4)
  by (simp add: pr_role strip_blank [OF assms(1)] get_next_question.simps
      record_exchange_fields)

text \<open>
  Claim C7, amended. Once the candidate name and the job position are both non-empty,
  every sequence of operations without a reset keeps both values; a session that has
  left the introduction, or that is asked for its next question, is not in the
  introduction afterwards; and the name and position prompts are not returned again:
  each operation returns nothing, the fixed welcome text, or what the generation
  service answered to a request sent by that very call. An empty or whitespace-only
  answer in the introduction, however, sets the field that was asked for to the empty
  string, which counts as not given: the exchange is recorded, the session stays in the
  introduction, the same fixed prompt is returned again and no request is sent.
\<close>

theorem introduction_left_for_good:
  "(truthy (candidate_name (fst w)) \<and> truthy (job_position (fst w))
      \<and> Initialize_session \<notin> set ops \<longrightarrow>
      candidate_name (fst (run llm ops w)) = candidate_name (fst w)
      \<and> job_position (fst (run llm ops w)) = job_position (fst w)
      \<and> (interview_stage (fst w) \<noteq> Introduction \<or> Next_question \<in> set ops \<longrightarrow>
           interview_stage (fst (run llm ops w)) \<noteq> Introduction)
      \<and> (\<forall>i < length ops.
           output_at llm ops w i = None
           \<or> output_at llm ops w i
               = Some (Inr (welcome_prompt (candidate_name (fst w)) (job_position (fst w))))
           \<or> from_service llm (snd (run llm (take i ops) w))
                (snd (run llm (take (Suc i) ops) w)) (output_at llm ops w i)))
   \<and> ((\<forall>c \<in> set a. (of_char c :: nat) \<in> {9, 10, 11, 12, 13, 28, 29, 30, 31, 32, 133, 160})
      \<and> interview_stage s = Introduction \<longrightarrow>
      (\<not> truthy (candidate_name s) \<longrightarrow>
         process_response llm a (s, sent) =
           (Inr name_prompt,
            (record_exchange a s)\<lparr>candidate_name := Some [], last_question := name_prompt\<rparr>,
            sent))
      \<and> (truthy (candidate_name s) \<and> \<not> truthy (job_position s) \<longrightarrow>
         process_response llm a (s, sent) =
           (Inr (role_prompt (candidate_name s)),
            (record_exchange a s)\<lparr>job_position := Some [],
                                   last_question := role_prompt (candidate_name s)\<rparr>,
            sent)))"
proof -
  have both: "truthy (candidate_name (fst w)) \<and> truthy (job_position (fst w))
      \<and> Initialize_session \<notin> set ops \<longrightarrow>
      candidate_name (fst (run llm ops w)) = candidate_name (fst w)
      \<and> job_position (fst (run llm ops w)) = job_position (fst w)
      \<and> (interview_stage (fst w) \<noteq> Introduction \<or> Next_question \<in> set ops \<longrightarrow>
           interview_stage (fst (run llm ops w)) \<noteq> Introduction)
      \<and> (\<forall>i < length ops.
           output_at llm ops w i = None
           \<or> output_at llm ops w i
               = Some (Inr (welcome_prompt (candidate_name (fst w)) (job_position (fst w))))
           \<or> from_service llm (snd (run llm (take i ops) w))
                (snd (run llm (take (Suc i) ops) w)) (output_at llm ops w i))"
  proof (rule impI)
    assume "truthy (candidate_name (fst w)) \<and> truthy (job_position (fst w))
      \<and> Initialize_session \<notin> set ops"
    then have h1: "truthy (candidate_name (fst w))" and h2: "truthy (job_position (fst w))"
      and h3: "Initialize_session \<notin> set ops" by simp_all
    from both_fields_run [OF h1 h2 h3, of llm]
    show "candidate_name (fst (run llm ops w)) = candidate_name (fst w)
      \<and> job_position (fst (run llm ops w)) = job_position (fst w)
      \<and> (interview_stage (fst w) \<noteq> Introduction \<or> Next_question \<in> set ops \<longrightarrow>
           interview_stage (fst (run llm ops w)) \<noteq> Introduction)
      \<and> (\<forall>i < length ops.
           output_at llm ops w i = None
           \<or> output_at llm ops w i
               = Some (Inr (welcome_prompt (candidate_name (fst w)) (job_position (fst w))))
           \<or> from_service llm (snd (run llm (take i ops) w))
                (snd (run llm (take (Suc i) ops) w)) (output_at llm ops w i))" .
  qed
  have blank: "(\<forall>c \<in> set a. (of_char c :: nat) \<in> {9, 10, 11, 12, 13, 28, 29, 30, 31, 32, 133, 160})
      \<and> interview_stage s = Introduction \<longrightarrow>
      (\<not> truthy (candidate_name s) \<longrightarrow>
         process_response llm a (s, sent) =
           (Inr name_prompt,
            (record_exchange a s)\<lparr>candidate_name := Some [], last_question := name_prompt\<rparr>,
            sent))
      \<and> (truthy (candidate_name s) \<and> \<not> truthy (job_position s) \<longrightarrow>
         process_response llm a (s, sent) =
           (Inr (role_prompt (candidate_name s)),
            (record_exchange a s)\<lparr>job_position := Some [],
                                   last_question := role_prompt (candidate_name s)\<rparr>,
            sent))"
  proof (intro impI conjI)
    assume b: "(\<forall>c \<in> set a. (of_char c :: nat) \<in> {9, 10, 11, 12, 13, 28, 29, 30, 31, 32, 133, 160})
      \<and> interview_stage s = Introduction"
    assume n: "\<not> truthy (candidate_name s)"
    from b n show "process_response llm a (s, sent) =
           (Inr name_prompt,
            (record_exchange a s)\<lparr>candidate_name := Some [], last_question := name_prompt\<rparr>,
            sent)"
      by (intro pr_blank_name) simp_all
  next
    assume b: "(\<forall>c \<in> set a. (of_char c :: nat) \<in> {9, 10, 11, 12, 13, 28, 29, 30, 31, 32, 133, 160})
      \<and> interview_stage s = Introduction"
    assume n: "truthy (candidate_name s) \<and> \<not> truthy (job_position s)"
    from b n show "process_response llm a (s, sent) =
           (Inr (role_prompt (candidate_name s)),
            (record_exchange a s)\<lparr>job_position := Some [],
                                   last_question := role_prompt (candidate_name s)\<rparr>,
            sent)"
      by (intro pr_blank_role) simp_all
  qed
  from both blank show ?thesis by (rule conjI)
qed

theorem introduction_left_for_good_witness:
  "truthy (candidate_name (fst (alice_engineer, ([] :: request list))))
   \<and> truthy (job_position (fst (alice_engineer, ([] :: request list))))
   \<and> Initialize_session \<notin> set later_ops
   \<and> candidate_name (fst (run stub_yes later_ops (alice_engineer, []))) = Some ''Alice''
   \<and> job_position (fst (run stub_yes later_ops (alice_engineer, []))) = Some ''Engineer''
   \<and> interview_stage (fst (run stub_yes later_ops (alice_engineer, []))) \<noteq> Introduction
   \<and> map of_char blank_answer = [9, 32, 10, 160 :: nat]
   \<and> interview_stage AIInterviewer = Introduction
   \<and> \<not> truthy (candidate_name AIInterviewer)
   \<and> fst (process_response stub_down blank_answer (AIInterviewer, []))
       = Inr ''Hello! I'm your AI interviewer today. Could you please tell me your name?''
   \<and> candidate_name (fst (snd (process_response stub_down blank_answer (AIInterviewer, []))))
       = Some []
   \<and> interview_stage (fst (snd (process_response stub_down blank_answer (AIInterviewer, []))))
       = Introduction
   \<and> interview_stage bob_session = Introduction
   \<and> truthy (candidate_name bob_session) \<and> \<not> truthy (job_position bob_session)
   \<and> fst (process_response stub_down blank_answer (bob_session, []))
       = Inr ''Nice to meet you, Bob! What position are you applying for?''
   \<and> job_position (fst (snd (process_response stub_down blank_answer (bob_session, []))))
       = Some []
   \<and> interview_stage (fst (snd (process_response stub_down blank_answer (bob_session, []))))
       = Introduction"
proof -
  have h1: "truthy (candidate_name (fst (alice_engineer, ([] :: request list))))"
    by (simp add: alice_engineer_def)
  have h2: "truthy (job_position (fst (alice_engineer, ([] :: request list))))"
    by (simp add: alice_engineer_def)
  have h3: "Initialize_session \<notin> set later_ops" by (simp add: later_ops_def)
  have n: "Next_question \<in> set later_ops" by (simp add: later_ops_def)
  have b: "\<forall>c \<in> set blank_answer.
         (of_char c :: nat) \<in> {9, 10, 11, 12, 13, 28, 29, 30, 31, 32, 133, 160}"
    by (simp add: blank_answer_def)
  have a1: "interview_stage AIInterviewer = Introduction"
    "\<not> truthy (candidate_name AIInterviewer)"
    by (simp_all add: AIInterviewer_def)
  have b1: "interview_stage bob_session = Introduction"
    "truthy (candidate_name bob_session)" "\<not> truthy (job_position bob_session)"
    by (simp_all add: bob_session_def AIInterviewer_def)
  have run: "candidate_name (fst (run stub_yes later_ops (alice_engineer, []))) = Some ''Alice''
   \<and> job_position (fst (run stub_yes later_ops (alice_engineer, []))) = Some ''Engineer''
   \<and> interview_stage (fst (run stub_yes later_ops (alice_engineer, []))) \<noteq> Introduction"
    using introduction_left_for_good
            [where w = "(alice_engineer, [])" and ops = later_ops and llm = stub_yes]
          h1 h2 h3 n
    by (simp add: alice_engineer_def)
  have name: "process_response stub_down blank_answer (AIInterviewer, []) =
           (Inr name_prompt,
            (record_exchange blank_answer AIInterviewer)
              \<lparr>candidate_name := Some [], last_question := name_prompt\<rparr>, [])"
    using introduction_left_for_good
            [where a = blank_answer and s = AIInterviewer and llm = stub_down and sent = "[]"]
          b a1
    by simp
  have role: "process_response stub_down blank_answer (bob_session, []) =
           (Inr (role_prompt (candidate_name bob_session)),
            (record_exchange blank_answer bob_session)
              \<lparr>job_position := Some [],
                last_question := role_prompt (candidate_name bob_session)\<rparr>, [])"
    using introduction_left_for_good
            [where a = blank_answer and s = bob_session and llm = stub_down and sent = "[]"]
          b b1
    by simp
  have p: "name_prompt
             = ''Hello! I'm your AI interviewer today. Could you please tell me your name?''"
    "role_prompt (candidate_name bob_session)
             = ''Nice to meet you, Bob! What position are you applying for?''"
    by (simp_all add: name_prompt_def role_prompt_def bob_session_def)
  have st: "interview_stage (record_exchange blank_answer AIInterviewer) = Introduction"
    "interview_stage (record_exchange blank_answer bob_session) = Introduction"
    using a1(1) b1(1) by (simp_all add: record_exchange_fields)
  have cp: "map of_char blank_answer = [9, 32, 10, 160 :: nat]"
    by (simp add: blank_answer_def)
  from h1 h2 h3 run cp a1 b1 show ?thesis
    by (simp add: name role p st)
qed

end
